theory Spec2Isabelle
  imports Main
begin

section \<open>Python strings\<close>

text \<open>
  A Python \<open>str\<close> is a sequence of Unicode code points, and \<open>len\<close>, slicing and
  \<open>rfind\<close> count code points. A string is therefore a list of code points.
\<close>

type_synonym pystr = "nat list"

definition str :: "string \<Rightarrow> pystr" where
  "str s = map of_char s"

text \<open>\<open>str.isspace\<close> on one code point: the whitespace table of CPython.\<close>

definition isspace :: "nat \<Rightarrow> bool" where
  "isspace c =
     ((9 \<le> c \<and> c \<le> 13) \<or> (28 \<le> c \<and> c \<le> 32) \<or> c = 133 \<or> c = 160 \<or> c = 5760 \<or>
      (8192 \<le> c \<and> c \<le> 8202) \<or> c = 8232 \<or> c = 8233 \<or> c = 8239 \<or> c = 8287 \<or> c = 12288)"

text \<open>\<open>s.strip()\<close>: whitespace removed at both ends.\<close>

definition strip :: "pystr \<Rightarrow> pystr" where
  "strip s = rev (dropWhile isspace (rev (dropWhile isspace s)))"

text \<open>
  A slice bound of \<open>s[i:j]\<close> on a sequence of length \<open>n\<close>: a negative bound counts
  from the end, and every bound is clamped to \<open>0 .. n\<close>. Slicing never raises.
\<close>

definition slice_index :: "nat \<Rightarrow> int \<Rightarrow> nat" where
  "slice_index n i = (if i < 0 then nat (max 0 (i + int n)) else min (nat i) n)"

definition py_slice :: "'a list \<Rightarrow> int \<Rightarrow> int \<Rightarrow> 'a list" where
  "py_slice s i j =
     (let lo = slice_index (length s) i; hi = slice_index (length s) j
      in take (hi - lo) (drop lo s))"

text \<open>
  \<open>s.rfind(sub, i, j)\<close>: the highest index \<open>k\<close> with \<open>s[k : k + len(sub)] == sub\<close>
  inside \<open>s[i:j]\<close>, or \<open>-1\<close>. \<open>rfind_scan s sub lo n\<close> tries the \<open>n\<close> positions
  \<open>lo + n - 1\<close> down to \<open>lo\<close>.
\<close>

primrec rfind_scan :: "pystr \<Rightarrow> pystr \<Rightarrow> nat \<Rightarrow> nat \<Rightarrow> int" where
  "rfind_scan s sub lo 0 = - 1"
| "rfind_scan s sub lo (Suc n) =
     (if take (length sub) (drop (lo + n) s) = sub then int (lo + n)
      else rfind_scan s sub lo n)"

definition rfind :: "pystr \<Rightarrow> pystr \<Rightarrow> int \<Rightarrow> int \<Rightarrow> int" where
  "rfind s sub i j =
     (let n = int (length s);
          e = (if j > n then n else if j < 0 then max 0 (j + n) else j);
          b = (if i < 0 then max 0 (i + n) else i)
      in if e - b < int (length sub) then - 1
         else rfind_scan s sub (nat b) (nat (e - b - int (length sub) + 1)))"

text \<open>\<open>sub in s\<close> for strings: \<open>sub\<close> occurs in \<open>s\<close> as a contiguous run.\<close>

fun contains :: "pystr \<Rightarrow> pystr \<Rightarrow> bool" where
  "contains [] sub = (sub = [])"
| "contains (c # cs) sub = (take (length sub) (c # cs) = sub \<or> contains cs sub)"


section \<open>Pages and chunks\<close>

text \<open>
  A page record is a dict read with \<open>.get\<close>: either key may be missing.
\<close>

record page =
  page_text :: "pystr option"
  page_number :: "int option"

record metadata =
  pages :: "int list"
  source_page :: int

text \<open>
  The \<open>summary\<close> key is absent until the orchestrator sets it; what it then holds
  is the value \<open>summarize_with_claude\<close> returned (a string, or \<open>None\<close>) or the
  error string.
\<close>

datatype summary_value = SNone | SStr pystr

record chunk =
  ctext :: pystr
  metadata :: metadata
  summary :: "summary_value option"

definition mk_chunk :: "pystr \<Rightarrow> int \<Rightarrow> chunk" where
  "mk_chunk t page_num =
     \<lparr>ctext = t, metadata = \<lparr>pages = [page_num], source_page = page_num\<rparr>, summary = None\<rparr>"


section \<open>The chunker: \<open>chunk_text\<close>\<close>

text \<open>
  \<open>int(chunk_size * 0.2)\<close>: the double \<open>0.2\<close> is \<open>(1 + 2^-54) / 5\<close>, so for an
  integer of magnitude below \<open>2^53\<close> the rounded product truncates to the quotient
  by five, rounded towards zero.
\<close>

definition window_width :: "int \<Rightarrow> int" where
  "window_width chunk_size =
     (if 0 \<le> chunk_size then chunk_size div 5 else - ((- chunk_size) div 5))"

text \<open>The separators \<open>". ", "! ", "? ", ".\n", "!\n", "?\n"\<close>, in the source's order.\<close>

definition sentence_seps :: "pystr list" where
  "sentence_seps = [[46, 32], [33, 32], [63, 32], [46, 10], [33, 10], [63, 10]]"

text \<open>The \<open>for sep in [...]\<close> loop; the last argument is \<open>sentence_break\<close>.\<close>

fun sentence_scan :: "pystr \<Rightarrow> int \<Rightarrow> int \<Rightarrow> pystr list \<Rightarrow> int \<Rightarrow> int" where
  "sentence_scan t search_start e [] sentence_break = sentence_break"
| "sentence_scan t search_start e (sep # seps) sentence_break =
     (let pos = rfind t sep search_start e
      in sentence_scan t search_start e seps
           (if pos \<noteq> - 1 \<and> (sentence_break = - 1 \<or> pos > sentence_break)
            then pos + int (length sep) else sentence_break))"

text \<open>The value of \<open>end\<close> when the chunk is cut, for the window that starts at \<open>start\<close>.\<close>

definition window_end :: "pystr \<Rightarrow> int \<Rightarrow> int \<Rightarrow> int" where
  "window_end t chunk_size start =
     (let e = min (start + chunk_size) (int (length t));
          search_start = e - window_width chunk_size;
          paragraph_break = rfind t [10, 10] search_start e
      in if paragraph_break \<noteq> - 1 \<and> paragraph_break > start then paragraph_break + 2
         else (let sentence_break = sentence_scan t search_start e sentence_seps (- 1)
               in if sentence_break \<noteq> - 1 \<and> sentence_break > start then sentence_break
                  else e))"

text \<open>\<open>start = max(start + 1, end - chunk_overlap)\<close>.\<close>

definition next_start :: "pystr \<Rightarrow> int \<Rightarrow> int \<Rightarrow> int \<Rightarrow> int" where
  "next_start t chunk_size chunk_overlap start =
     max (start + 1) (window_end t chunk_size start - chunk_overlap)"

text \<open>The chunk appended in one iteration: nothing when the stripped slice is empty.\<close>

definition emit :: "pystr \<Rightarrow> int \<Rightarrow> int \<Rightarrow> int \<Rightarrow> chunk list" where
  "emit t page_num start e =
     (let chunk_text = strip (py_slice t start e)
      in if chunk_text \<noteq> [] then [mk_chunk chunk_text page_num] else [])"

text \<open>The \<open>while start < len(text)\<close> loop, returning the chunks it appends.\<close>

function split_loop :: "pystr \<Rightarrow> int \<Rightarrow> int \<Rightarrow> int \<Rightarrow> int \<Rightarrow> chunk list" where
  "split_loop t page_num chunk_size chunk_overlap start =
     (if start < int (length t)
      then emit t page_num start (window_end t chunk_size start) @
           split_loop t page_num chunk_size chunk_overlap
             (next_start t chunk_size chunk_overlap start)
      else [])"
  by pat_completeness auto
termination
  by (relation "measure (\<lambda>(t, page_num, chunk_size, chunk_overlap, start).
        nat (int (length t) - start))")
     (simp_all add: next_start_def)

text \<open>The same loop, recording the window \<open>(start, end)\<close> of every iteration.\<close>

function split_windows :: "pystr \<Rightarrow> int \<Rightarrow> int \<Rightarrow> int \<Rightarrow> (int \<times> int) list" where
  "split_windows t chunk_size chunk_overlap start =
     (if start < int (length t)
      then (start, window_end t chunk_size start) #
           split_windows t chunk_size chunk_overlap
             (next_start t chunk_size chunk_overlap start)
      else [])"
  by pat_completeness auto
termination
  by (relation "measure (\<lambda>(t, chunk_size, chunk_overlap, start).
        nat (int (length t) - start))")
     (simp_all add: next_start_def)

declare split_loop.simps [simp del]
declare split_windows.simps [simp del]

text \<open>The body of the \<open>for i, page_data in enumerate(extracted_pages)\<close> loop.\<close>

definition page_chunks :: "nat \<Rightarrow> page \<Rightarrow> int \<Rightarrow> int \<Rightarrow> chunk list" where
  "page_chunks i page_data chunk_size chunk_overlap =
     (let t = (case page_text page_data of None \<Rightarrow> [] | Some s \<Rightarrow> s);
          page_num = (case page_number page_data of None \<Rightarrow> int i + 1 | Some n \<Rightarrow> n)
      in if strip t = [] then []
         else if int (length t) \<le> chunk_size then [mk_chunk t page_num]
         else split_loop t page_num chunk_size chunk_overlap 0)"

fun chunk_pages :: "nat \<Rightarrow> page list \<Rightarrow> int \<Rightarrow> int \<Rightarrow> chunk list \<Rightarrow> chunk list" where
  "chunk_pages i [] chunk_size chunk_overlap chunks = chunks"
| "chunk_pages i (page_data # rest) chunk_size chunk_overlap chunks =
     chunk_pages (Suc i) rest chunk_size chunk_overlap
       (chunks @ page_chunks i page_data chunk_size chunk_overlap)"

definition chunk_text :: "page list \<Rightarrow> int \<Rightarrow> int \<Rightarrow> chunk list" where
  "chunk_text extracted_pages chunk_size chunk_overlap =
     chunk_pages 0 extracted_pages chunk_size chunk_overlap []"


section \<open>The remote call, the clock and the checkpoint file\<close>

text \<open>
  What a Python call does: it returns a value, or raises an exception, kept as the
  string \<open>str(e)\<close>.
\<close>

datatype 'a result = Raised pystr | Returned 'a

text \<open>
  One call of \<open>bedrock_runtime.invoke_model\<close> with the decoding of its body: the
  summary text, or an exception. The remote end is a parameter \<open>remote\<close>: the outcome of
  the \<open>n\<close>-th call made in the run.
\<close>

datatype outcome = Response pystr | Failure pystr

record doc_result =
  source :: pystr
  chunks :: "chunk list"

text \<open>
  What the output file holds when it exists: the record that \<open>json.dump\<close> wrote, or
  anything else (a truncated file, text that is not JSON, JSON of another shape). Other
  content is told apart by what reading it back does (\<open>json.load\<close> and the look at the
  first chunks): \<open>Foreign (Some e)\<close> when that raises \<open>e\<close>, \<open>Foreign None\<close> when it
  passes.
\<close>

datatype file_content = Saved doc_result | Foreign "pystr option"

text \<open>
  The world outside the process: how many remote calls were made, the durations passed
  to \<open>time.sleep\<close> in order, the output file (\<open>None\<close> when it does not exist), and the
  exception that opening the output file for writing raises, if it raises.
\<close>

record world =
  calls :: nat
  sleeps :: "nat list"
  disk :: "file_content option"
  write_error :: "pystr option"

definition sleep :: "nat \<Rightarrow> world \<Rightarrow> world" where
  "sleep d w = w\<lparr>sleeps := sleeps w @ [d]\<rparr>"

definition invoke_model :: "(nat \<Rightarrow> outcome) \<Rightarrow> world \<Rightarrow> outcome \<times> world" where
  "invoke_model remote w = (remote (calls w), w\<lparr>calls := Suc (calls w)\<rparr>)"


section \<open>The summarization client: \<open>summarize_with_claude\<close>\<close>

text \<open>
  The \<open>for attempt in range(max_retries)\<close> loop over the attempts still to make. A loop
  that runs out without returning or raising makes the function return \<open>None\<close>.
\<close>

fun attempt_loop ::
  "(nat \<Rightarrow> outcome) \<Rightarrow> int \<Rightarrow> nat list \<Rightarrow> world \<Rightarrow> summary_value result \<times> world" where
  "attempt_loop remote max_retries [] w = (Returned SNone, w)"
| "attempt_loop remote max_retries (attempt # rest) w =
     (case invoke_model remote w of
        (Response body, w1) \<Rightarrow> (Returned (SStr body), w1)
      | (Failure e, w1) \<Rightarrow>
          if contains e (str ''ThrottlingException'') \<and> int attempt < max_retries - 1
          then attempt_loop remote max_retries rest (sleep (2 ^ (attempt + 2)) w1)
          else (Raised e, w1))"

definition summarize_with_claude ::
  "(nat \<Rightarrow> outcome) \<Rightarrow> int \<Rightarrow> world \<Rightarrow> summary_value result \<times> world" where
  "summarize_with_claude remote max_retries w =
     attempt_loop remote max_retries [0..<nat max_retries] w"


section \<open>Extraction: \<open>extract_pdf\<close>\<close>

text \<open>
  The document as the PDF library presents it: opening it raises or gives the pages, and
  reading the text of a page raises or gives the text.
\<close>

type_synonym pdf = "pystr result list result"

text \<open>
  The page loop inside \<open>try\<close>: the first exception leaves the loop, and the
  \<open>except Exception\<close> clause only prints, so the pages appended so far are returned.
\<close>

fun extract_loop :: "nat \<Rightarrow> pystr result list \<Rightarrow> page list \<Rightarrow> page list" where
  "extract_loop page_idx [] extracted_pages = extracted_pages"
| "extract_loop page_idx (Raised e # rest) extracted_pages = extracted_pages"
| "extract_loop page_idx (Returned t # rest) extracted_pages =
     extract_loop (Suc page_idx) rest
       (extracted_pages @ [\<lparr>page_text = Some t, page_number = Some (int page_idx + 1)\<rparr>])"

definition extract_pdf :: "pdf \<Rightarrow> page list" where
  "extract_pdf doc =
     (case doc of Raised e \<Rightarrow> [] | Returned doc_pages \<Rightarrow> extract_loop 0 doc_pages [])"


section \<open>The output path\<close>

text \<open>
  \<open>os.path.basename\<close>, \<open>str.replace\<close> and \<open>os.path.join\<close> with two arguments, as
  \<open>posixpath\<close> defines them; \<open>47\<close> is the slash.
\<close>

definition basename :: "pystr \<Rightarrow> pystr" where
  "basename p =
     (let i = rfind p [47] 0 (int (length p)) + 1 in py_slice p i (int (length p)))"

function replace :: "pystr \<Rightarrow> pystr \<Rightarrow> pystr \<Rightarrow> pystr" where
  "replace s old new =
     (if old = [] then new @ concat (map (\<lambda>c. c # new) s)
      else if s = [] then []
      else if take (length old) s = old then new @ replace (drop (length old) s) old new
      else hd s # replace (tl s) old new)"
  by pat_completeness auto
termination
  by (relation "measure (\<lambda>(s, old, new). length s)") auto

declare replace.simps [simp del]

definition path_join :: "pystr \<Rightarrow> pystr \<Rightarrow> pystr" where
  "path_join a b =
     (if take 1 b = [47] then b
      else if a = [] \<or> last a = 47 then a @ b
      else a @ [47] @ b)"


section \<open>The orchestrator: \<open>process_stock_report\<close>\<close>

definition save_partial_results :: "doc_result \<Rightarrow> world \<Rightarrow> unit result \<times> world" where
  "save_partial_results data w =
     (case write_error w of
        None \<Rightarrow> (Returned (), w\<lparr>disk := Some (Saved data)\<rparr>)
      | Some e \<Rightarrow> (Raised e, w))"

record run_state =
  result_data :: doc_result
  successful_chunks :: nat
  outside :: world

text \<open>
  \<open>chunk["summary"] = v\<close>: the chunk is the same object in \<open>text_chunks\<close> and in
  \<open>result_data["chunks"]\<close>, so the record sees the assignment.
\<close>

definition set_summary :: "nat \<Rightarrow> summary_value \<Rightarrow> doc_result \<Rightarrow> doc_result" where
  "set_summary i v data =
     data\<lparr>chunks := (chunks data)[i := (chunks data ! i)\<lparr>summary := Some v\<rparr>]\<rparr>"

text \<open>
  The body of \<open>for i, chunk in enumerate(text_chunks)\<close>, for \<open>i\<close> below the number of
  chunks. \<open>save_partial_results\<close> is called inside \<open>try\<close>, after the counter is
  incremented: an exception it raises is handled like one of the summarization.
\<close>

definition process_chunk :: "(nat \<Rightarrow> outcome) \<Rightarrow> nat \<Rightarrow> run_state \<Rightarrow> run_state" where
  "process_chunk remote i st =
     (let st1 =
        (case summarize_with_claude remote 5 (outside st) of
           (Returned v, w1) \<Rightarrow>
             (let data1 = set_summary i v (result_data st);
                  n1 = successful_chunks st + 1
              in case save_partial_results data1 w1 of
                   (Returned u, w2) \<Rightarrow>
                     \<lparr>result_data = data1, successful_chunks = n1, outside = w2\<rparr>
                 | (Raised e, w2) \<Rightarrow>
                     \<lparr>result_data = set_summary i (SStr (str ''Error: '' @ e)) data1,
                      successful_chunks = n1, outside = w2\<rparr>)
         | (Raised e, w1) \<Rightarrow>
             \<lparr>result_data = set_summary i (SStr (str ''Error: '' @ e)) (result_data st),
              successful_chunks = successful_chunks st, outside = w1\<rparr>)
      in if int i < int (length (chunks (result_data st1))) - 1
         then st1\<lparr>outside := sleep 5 (outside st1)\<rparr> else st1)"

fun process_chunks :: "(nat \<Rightarrow> outcome) \<Rightarrow> nat list \<Rightarrow> run_state \<Rightarrow> run_state" where
  "process_chunks remote [] st = st"
| "process_chunks remote (i # rest) st = process_chunks remote rest (process_chunk remote i st)"

text \<open>
  The final verification: \<open>open(output_filename, 'r')\<close> raises when the file does not
  exist, and \<open>json.load\<close> or the look at the first chunks raises on content they cannot
  read. A record written by \<open>json.dump\<close> is read back without an exception.
\<close>

datatype run_error = FileNotFoundError pystr | ReadBackError pystr

definition read_back :: "pystr \<Rightarrow> world \<Rightarrow> run_error + unit" where
  "read_back output_filename w =
     (case disk w of
        None \<Rightarrow> Inl (FileNotFoundError output_filename)
      | Some (Saved data) \<Rightarrow> Inr ()
      | Some (Foreign None) \<Rightarrow> Inr ()
      | Some (Foreign (Some e)) \<Rightarrow> Inl (ReadBackError e))"

text \<open>
  The whole run, from a world in which the output directory can be created. The result is
  the output path the function returns, or the exception that leaves it.
\<close>

definition process_stock_report ::
  "(nat \<Rightarrow> outcome) \<Rightarrow> pdf \<Rightarrow> pystr \<Rightarrow> pystr \<Rightarrow> world \<Rightarrow> (run_error + pystr) \<times> run_state" where
  "process_stock_report remote doc pdf_path output_dir w =
     (let extracted_pages = extract_pdf doc;
          text_chunks = chunk_text extracted_pages 1000 200;
          output_filename =
            path_join output_dir (replace (basename pdf_path) (str ''.pdf'') (str ''.json''));
          st0 = \<lparr>result_data = \<lparr>source = pdf_path, chunks = text_chunks\<rparr>,
                 successful_chunks = 0, outside = w\<rparr>;
          st = process_chunks remote [0..<length text_chunks] st0
      in (case read_back output_filename (outside st) of
            Inl e \<Rightarrow> Inl e
          | Inr u \<Rightarrow> Inr output_filename, st))"


section \<open>The administrative utility: \<open>db_utils\<close>\<close>

text \<open>
  \<open>s.lower()\<close>, exact on ASCII. Other code points are left as they are; no string with
  such a code point lowers to \<open>stats\<close>, \<open>clear\<close> or \<open>y\<close> in Python either, so every
  comparison below decides as the source does.
\<close>

definition lower :: "pystr \<Rightarrow> pystr" where
  "lower s = map (\<lambda>c. if 65 \<le> c \<and> c \<le> 90 then c + 32 else c) s"

text \<open>
  The database: its tables by name, each with the \<open>source_file\<close> of its rows. What the
  functions print is kept as a list of messages.
\<close>

type_synonym database = "(pystr \<times> pystr list) list"

datatype message =
  Line pystr
| Statistics nat "(pystr \<times> nat) list"

definition table_names :: "database \<Rightarrow> pystr list" where
  "table_names db = map fst db"

definition drop_table :: "pystr \<Rightarrow> database \<Rightarrow> database" where
  "drop_table name db = filter (\<lambda>tb. fst tb \<noteq> name) db"

definition unique :: "pystr list \<Rightarrow> pystr list" where
  "unique xs = rev (remdups (rev xs))"

definition get_db_stats :: "database \<Rightarrow> message list" where
  "get_db_stats db =
     (case map_of db (str ''stock_chunks'') of
        None \<Rightarrow> [Line (str ''Stock chunks table does not exist'')]
      | Some rows \<Rightarrow>
          [Statistics (length rows)
             (map (\<lambda>src. (src, length (filter (\<lambda>r. r = src) rows))) (unique rows))])"

text \<open>
  \<open>clear_database(confirm)\<close>; \<open>answer\<close> is the line \<open>input\<close> reads when it is
  called.
\<close>

definition clear_database :: "bool \<Rightarrow> pystr \<Rightarrow> database \<Rightarrow> database \<times> message list" where
  "clear_database confirm answer db =
     (if confirm \<and> lower answer \<noteq> str ''y'' then (db, [Line (str ''Operation cancelled'')])
      else if str ''stock_chunks'' \<in> set (table_names db)
           then (drop_table (str ''stock_chunks'') db, [Line (str ''Database cleared'')])
           else (db, [Line (str ''No database to clear'')]))"

text \<open>
  The script body: \<open>argv\<close> is \<open>sys.argv\<close>, the result is the exit status, the
  database and the messages.
\<close>

definition main :: "pystr list \<Rightarrow> pystr \<Rightarrow> database \<Rightarrow> int \<times> database \<times> message list" where
  "main argv answer db =
     (if length argv < 2
      then (1, db, [Line (str ''Usage: python db_utils.py [stats|clear]'')])
      else (let action = lower (argv ! 1)
            in if action = str ''stats'' then (0, db, get_db_stats db)
               else if action = str ''clear''
                    then (0, clear_database True answer db)
                    else (0, db, [Line (str ''Unknown action: '' @ action),
                                  Line (str ''Available actions: stats, clear'')])))"

section \<open>Properties of the chunker\<close>

lemma next_start_gt: "start < next_start t chunk_size chunk_overlap start"
  by (simp add: next_start_def)


lemma dropWhile_snoc_keep: "\<not> P x \<Longrightarrow> dropWhile P (ys @ [x]) = dropWhile P ys @ [x]"
  by (induction ys) auto


lemma strip_idem: "strip (strip s) = strip s"
proof (cases "dropWhile isspace s")
  case Nil
  have e: "strip s = []" unfolding strip_def Nil by simp
  have n: "strip [] = []" by (simp add: strip_def)
  show ?thesis by (simp only: e n)
next
  case (Cons x xs)
  then have nx: "\<not> isspace x"
    by (metis hd_dropWhile list.distinct(1) list.sel(1))
  have r: "dropWhile isspace (rev xs @ [x]) = dropWhile isspace (rev xs) @ [x]"
    using nx dropWhile_snoc_keep [of isspace x "rev xs"] by simp
  have s1: "strip s = x # rev (dropWhile isspace (rev xs))"
    by (simp add: strip_def Cons r)
  have "dropWhile isspace (strip s) = strip s"
    using nx by (simp add: s1)
  then show ?thesis
    by (simp add: strip_def[of "strip s"]) (simp add: strip_def)
qed

lemma chunk_pages_concat:
  "chunk_pages i ps cs ov acc =
     acc @ concat (map (\<lambda>(k, p). page_chunks k p cs ov) (enumerate i ps))"
  by (induction ps arbitrary: i acc) simp_all

lemma emit_props:
  "c \<in> set (emit t pn s e) \<Longrightarrow>
     strip (ctext c) \<noteq> [] \<and> metadata c = \<lparr>pages = [pn], source_page = pn\<rparr>"
  by (auto simp: emit_def Let_def mk_chunk_def strip_idem split: if_splits)

lemma split_loop_props:
  "c \<in> set (split_loop t pn cs ov start) \<Longrightarrow>
     strip (ctext c) \<noteq> [] \<and> metadata c = \<lparr>pages = [pn], source_page = pn\<rparr>"
proof (induction t pn cs ov start rule: split_loop.induct)
  case (1 t pn cs ov start)
  show ?case
  proof (cases "start < int (length t)")
    case True
    with "1.prems" have "c \<in> set (emit t pn start (window_end t cs start)) \<or>
       c \<in> set (split_loop t pn cs ov (next_start t cs ov start))"
      by (subst (asm) split_loop.simps) simp
    then show ?thesis using "1.IH" [OF True] emit_props by blast
  next
    case False
    with "1.prems" show ?thesis by (subst (asm) split_loop.simps) simp
  qed
qed

lemma split_windows_lower:
  "w \<in> set (split_windows t cs ov start) \<Longrightarrow> start \<le> fst w"
proof (induction t cs ov start rule: split_windows.induct)
  case (1 t cs ov start)
  show ?case
  proof (cases "start < int (length t)")
    case True
    with "1.prems" have "w = (start, window_end t cs start) \<or>
       w \<in> set (split_windows t cs ov (next_start t cs ov start))"
      by (subst (asm) split_windows.simps) simp
    then show ?thesis
      using "1.IH" [OF True] next_start_gt [of start t cs ov] by fastforce
  next
    case False
    with "1.prems" show ?thesis by (subst (asm) split_windows.simps) simp
  qed
qed

lemma split_windows_sorted:
  "sorted_wrt (<) (map fst (split_windows t cs ov start))"
proof (induction t cs ov start rule: split_windows.induct)
  case (1 t cs ov start)
  show ?case
  proof (cases "start < int (length t)")
    case True
    have "\<forall>w \<in> set (split_windows t cs ov (next_start t cs ov start)). start < fst w"
      using split_windows_lower [of _ t cs ov "next_start t cs ov start"]
        next_start_gt [of start t cs ov] by fastforce
    then show ?thesis
      using "1.IH" [OF True] True by (subst split_windows.simps) simp
  next
    case False
    then show ?thesis by (subst split_windows.simps) simp
  qed
qed

lemma split_windows_length:
  "length (split_windows t cs ov start) \<le> nat (int (length t) - start)"
proof (induction t cs ov start rule: split_windows.induct)
  case (1 t cs ov start)
  show ?case
  proof (cases "start < int (length t)")
    case True
    then show ?thesis
      using "1.IH" [OF True] next_start_gt [of start t cs ov]
      by (subst split_windows.simps) simp
  next
    case False
    then show ?thesis by (subst split_windows.simps) simp
  qed
qed

lemma split_loop_windows:
  "split_loop t pn cs ov start =
     concat (map (\<lambda>(s, e). emit t pn s e) (split_windows t cs ov start))"
proof (induction t cs ov start rule: split_windows.induct)
  case (1 t cs ov start)
  show ?case
  proof (cases "start < int (length t)")
    case True
    then show ?thesis
      using "1.IH" [OF True]
      by (subst split_loop.simps, subst split_windows.simps) simp
  next
    case False
    then show ?thesis by (subst split_loop.simps, subst split_windows.simps) simp
  qed
qed

lemma chunk_text_concat:
  "chunk_text ps cs ov = concat (map (\<lambda>(k, p). page_chunks k p cs ov) (enumerate 0 ps))"
  by (simp add: chunk_text_def chunk_pages_concat)

lemma chunk_text_by_index:
  "chunk_text ps cs ov = concat (map (\<lambda>i. page_chunks i (ps ! i) cs ov) [0..<length ps])"
proof -
  have "map (\<lambda>(k, p). page_chunks k p cs ov) (enumerate 0 ps) =
        map (\<lambda>i. page_chunks i (ps ! i) cs ov) [0..<length ps]"
    by (rule nth_equalityI) (simp_all add: nth_enumerate_eq)
  then show ?thesis by (simp add: chunk_text_concat)
qed

lemma page_chunks_props:
  assumes "c \<in> set (page_chunks i p cs ov)"
  shows "strip (ctext c) \<noteq> [] \<and>
         metadata c =
           \<lparr>pages = [case page_number p of None \<Rightarrow> int i + 1 | Some n \<Rightarrow> n],
            source_page = (case page_number p of None \<Rightarrow> int i + 1 | Some n \<Rightarrow> n)\<rparr>"
  using assms split_loop_props
  by (auto simp: page_chunks_def Let_def mk_chunk_def split: if_splits)

text \<open>
  C8: every chunk of the result has a text that is not empty after stripping, and its
  \<open>pages\<close> list is the one-element list of its \<open>source_page\<close>, which is the page number
  of a page of the input (the \<open>page_number\<close> field, or the position plus one when the
  field is missing) from which the chunk was cut.
\<close>

theorem chunk_text_chunk_invariant:
  assumes "c \<in> set (chunk_text ps cs ov)"
  shows "strip (ctext c) \<noteq> [] \<and>
         length (pages (metadata c)) \<ge> 1 \<and>
         pages (metadata c) = [source_page (metadata c)] \<and>
         (\<exists>i < length ps.
            c \<in> set (page_chunks i (ps ! i) cs ov) \<and>
            source_page (metadata c) =
              (case page_number (ps ! i) of None \<Rightarrow> int i + 1 | Some n \<Rightarrow> n))"
proof -
  from assms obtain i where i: "i < length ps" "c \<in> set (page_chunks i (ps ! i) cs ov)"
    by (auto simp: chunk_text_by_index)
  from page_chunks_props [OF i(2)] i show ?thesis by auto
qed

theorem chunk_text_chunk_invariant_witness:
  "mk_chunk [72, 105] 7 \<in> set (chunk_text [\<lparr>page_text = Some [72, 105], page_number = Some 7\<rparr>] 1000 200) \<and>
   strip (ctext (mk_chunk [72, 105] 7)) \<noteq> [] \<and>
   pages (metadata (mk_chunk [72, 105] 7)) = [7]"
proof -
  have m: "mk_chunk [72, 105] 7 \<in> set (chunk_text [\<lparr>page_text = Some [72, 105], page_number = Some 7\<rparr>] 1000 200)"
    by (simp add: chunk_text_def page_chunks_def strip_def isspace_def)
  from chunk_text_chunk_invariant [OF m] m show ?thesis
    by (simp add: mk_chunk_def)
qed

text \<open>
  C7: in the splitting loop the next value of \<open>start\<close> is greater than the current one,
  for every text, chunk size and overlap; the values of \<open>start\<close> over the iterations
  are strictly increasing, and the loop makes at most \<open>len(text) - start\<close> iterations.
\<close>

theorem split_loop_progress:
  "start < next_start t cs ov start \<and>
   sorted_wrt (<) (map fst (split_windows t cs ov start)) \<and>
   length (split_windows t cs ov start) \<le> nat (int (length t) - start) \<and>
   split_loop t pn cs ov start =
     concat (map (\<lambda>(s, e). emit t pn s e) (split_windows t cs ov start))"
  using next_start_gt split_windows_sorted split_windows_length split_loop_windows
  by blast

text \<open>
  C6 as the code has it: a page whose text is not only whitespace and is at most
  \<open>chunk_size\<close> long gives exactly one chunk, and the text of that chunk is the text
  of the page as it is, not stripped.
\<close>

theorem short_page_one_chunk:
  assumes "strip t \<noteq> []" and "int (length t) \<le> cs"
  shows "page_chunks i \<lparr>page_text = Some t, page_number = pn\<rparr> cs ov =
           [mk_chunk t (case pn of None \<Rightarrow> int i + 1 | Some n \<Rightarrow> n)] \<and>
         chunk_text [\<lparr>page_text = Some t, page_number = pn\<rparr>] cs ov =
           [mk_chunk t (case pn of None \<Rightarrow> 1 | Some n \<Rightarrow> n)]"
  using assms by (simp add: chunk_text_def page_chunks_def split: option.split)

theorem short_page_one_chunk_witness:
  "strip [32, 97] \<noteq> [] \<and> int (length [32, 97 :: nat]) \<le> 1000 \<and>
   chunk_text [\<lparr>page_text = Some [32, 97], page_number = Some 1\<rparr>] 1000 200 =
     [mk_chunk [32, 97] 1]"
proof -
  have a: "strip [32, 97] \<noteq> []" by (simp add: strip_def isspace_def)
  have b: "int (length [32, 97 :: nat]) \<le> 1000" by simp
  from short_page_one_chunk [OF a b, of 0 "Some 1" 200] a b show ?thesis by simp
qed

text \<open>
  The claim C6 asks for the stripped text: the page \<open>" a"\<close> gives one chunk whose text
  is \<open>" a"\<close>, while the stripped text is \<open>"a"\<close>.
\<close>

theorem short_page_not_stripped:
  "map ctext (chunk_text [\<lparr>page_text = Some [32, 97], page_number = Some 1\<rparr>] 1000 200) = [[32, 97]] \<and>
   strip [32, 97] = [97] \<and>
   map ctext (chunk_text [\<lparr>page_text = Some [32, 97], page_number = Some 1\<rparr>] 1000 200) \<noteq> [strip [32, 97]]"
  by (simp add: chunk_text_def page_chunks_def strip_def isspace_def mk_chunk_def)



subsection \<open>Texts without whitespace\<close>

lemma rfind_scan_absent: "\<not> set sub \<subseteq> set s \<Longrightarrow> rfind_scan s sub lo n = - 1"
proof (induction n)
  case 0
  show ?case by simp
next
  case (Suc n)
  have "take (length sub) (drop (lo + n) s) \<noteq> sub"
  proof
    assume "take (length sub) (drop (lo + n) s) = sub"
    then have "set sub \<subseteq> set (drop (lo + n) s)"
      by (metis set_take_subset)
    with set_drop_subset [of "lo + n" s] Suc.prems show False by blast
  qed
  with Suc show ?case by simp
qed

lemma rfind_absent: "\<not> set sub \<subseteq> set s \<Longrightarrow> rfind s sub i j = - 1"
  by (simp add: rfind_def Let_def rfind_scan_absent)

lemma sentence_scan_absent:
  "(\<forall>sep \<in> set seps. rfind t sep search_start e = - 1) \<Longrightarrow>
   sentence_scan t search_start e seps sentence_break = sentence_break"
  by (induction seps arbitrary: sentence_break) simp_all

lemma window_end_plain:
  assumes "\<forall>c \<in> set t. \<not> isspace c"
  shows "window_end t cs start = min (start + cs) (int (length t))"
proof -
  have "isspace 10" "isspace 32"
    by (simp_all add: isspace_def)
  with assms have a: "10 \<notin> set t" "32 \<notin> set t"
    by blast+
  have r: "rfind t [x, y] i j = - 1" if "y = 10 \<or> y = 32" for x y i j
    using that a by (intro rfind_absent) auto
  have p: "rfind t [10, 10] i j = - 1" for i j
    by (rule r) simp
  have "\<forall>sep \<in> set sentence_seps. rfind t sep i j = - 1" for i j
    by (simp add: sentence_seps_def r)
  then have s: "sentence_scan t i j sentence_seps (- 1) = - 1" for i j
    by (rule sentence_scan_absent)
  show ?thesis
    unfolding window_end_def Let_def p s by simp
qed

lemma dropWhile_none: "\<forall>c \<in> set s. \<not> P c \<Longrightarrow> dropWhile P s = s"
  by (cases s) simp_all

lemma strip_plain: "\<forall>c \<in> set s. \<not> isspace c \<Longrightarrow> strip s = s"
  by (simp add: strip_def dropWhile_none)

lemma set_py_slice: "set (py_slice s i j) \<subseteq> set s"
  unfolding py_slice_def Let_def
  using set_take_subset set_drop_subset by fast

lemma length_py_slice:
  "0 \<le> i \<Longrightarrow> i \<le> j \<Longrightarrow> j \<le> int (length s) \<Longrightarrow> length (py_slice s i j) = nat (j - i)"
  by (simp add: py_slice_def slice_index_def Let_def min_def) linarith

lemma emit_plain:
  assumes "\<forall>c \<in> set t. \<not> isspace c" "0 \<le> s" "s < e" "e \<le> int (length t)"
  shows "emit t pn s e = [mk_chunk (py_slice t s e) pn]"
proof -
  have "\<forall>c \<in> set (py_slice t s e). \<not> isspace c"
    using assms(1) set_py_slice [of t s e] by (meson subsetD)
  then have "strip (py_slice t s e) = py_slice t s e"
    by (rule strip_plain)
  moreover have "length (py_slice t s e) = nat (e - s)"
    using assms(2-4) by (intro length_py_slice) simp_all
  then have "py_slice t s e \<noteq> []"
    using assms(3) by auto
  ultimately show ?thesis by (simp add: emit_def)
qed

text \<open>
  Once a window reaches the end of the text and the overlap is at least what is left,
  \<open>start\<close> advances by one per iteration and every iteration emits a chunk.
\<close>

lemma split_loop_tail:
  "(\<forall>c \<in> set t. \<not> isspace c) \<Longrightarrow> 0 \<le> start \<Longrightarrow> int (length t) \<le> start + cs \<Longrightarrow>
   int (length t) - ov \<le> start + 1 \<Longrightarrow>
   length (split_loop t pn cs ov start) = nat (int (length t) - start)"
proof (induction t pn cs ov start rule: split_loop.induct)
  case (1 t pn cs ov start)
  show ?case
  proof (cases "start < int (length t)")
    case True
    have we: "window_end t cs start = int (length t)"
      using "1.prems" by (simp add: window_end_plain)
    have ns: "next_start t cs ov start = start + 1"
      using "1.prems" by (simp add: next_start_def we)
    have em: "length (emit t pn start (window_end t cs start)) = 1"
      using "1.prems" True by (simp add: we emit_plain)
    have "length (split_loop t pn cs ov (next_start t cs ov start)) =
          nat (int (length t) - next_start t cs ov start)"
      using "1.prems" by (intro "1.IH" [OF True]) (simp_all add: ns)
    then have "length (split_loop t pn cs ov start) = 1 + nat (int (length t) - (start + 1))"
      using True em by (subst split_loop.simps) (simp add: ns)
    then show ?thesis using True by simp
  next
    case False
    then show ?thesis by (subst split_loop.simps) simp
  qed
qed

lemma split_loop_step:
  "(\<forall>c \<in> set t. \<not> isspace c) \<Longrightarrow> 0 \<le> start \<Longrightarrow> start < int (length t) \<Longrightarrow> 0 < cs \<Longrightarrow>
   split_loop t pn cs ov start =
     mk_chunk (py_slice t start (min (start + cs) (int (length t)))) pn #
     split_loop t pn cs ov (max (start + 1) (min (start + cs) (int (length t)) - ov))"
  by (subst split_loop.simps) (simp add: window_end_plain next_start_def emit_plain)

lemma split_windows_step:
  "(\<forall>c \<in> set t. \<not> isspace c) \<Longrightarrow> start < int (length t) \<Longrightarrow>
   split_windows t cs ov start =
     (start, min (start + cs) (int (length t))) #
     split_windows t cs ov (max (start + 1) (min (start + cs) (int (length t)) - ov))"
  by (subst split_windows.simps) (simp add: window_end_plain next_start_def)

lemma plain_2500:
  assumes plain: "\<forall>c \<in> set t. \<not> isspace c" and len: "length t = 2500"
  shows "length (chunk_text [\<lparr>page_text = Some t, page_number = Some 1\<rparr>] 1000 200) = 203"
    and "take 4 (split_windows t 1000 200 0) =
           [(0, 1000), (800, 1800), (1600, 2500), (2300, 2500)]"
proof -
  have ne: "strip t \<noteq> []"
    using len by (auto simp: strip_plain [OF plain])
  have tail: "length (split_loop t 1 1000 200 2300) = 200"
    using split_loop_tail [OF plain, of 2300 1000 200 1] by (simp add: len)
  have s0: "split_loop t 1 1000 200 0 =
              mk_chunk (py_slice t 0 1000) 1 # split_loop t 1 1000 200 800"
    using split_loop_step [OF plain, of 0 1000 1 200] by (simp add: len)
  have s1: "split_loop t 1 1000 200 800 =
              mk_chunk (py_slice t 800 1800) 1 # split_loop t 1 1000 200 1600"
    using split_loop_step [OF plain, of 800 1000 1 200] by (simp add: len)
  have s2: "split_loop t 1 1000 200 1600 =
              mk_chunk (py_slice t 1600 2500) 1 # split_loop t 1 1000 200 2300"
    using split_loop_step [OF plain, of 1600 1000 1 200] by (simp add: len)
  have n: "length (split_loop t 1 1000 200 0) = 203"
    by (simp add: s0 s1 s2 tail)
  have pc: "page_chunks 0 \<lparr>page_text = Some t, page_number = Some 1\<rparr> 1000 200 =
              split_loop t 1 1000 200 0"
    using ne by (simp add: page_chunks_def len)
  show "length (chunk_text [\<lparr>page_text = Some t, page_number = Some 1\<rparr>] 1000 200) = 203"
    by (simp add: chunk_text_def pc n)
  have w0: "split_windows t 1000 200 0 = (0, 1000) # split_windows t 1000 200 800"
    using split_windows_step [OF plain, of 0 1000 200] by (simp add: len)
  have w1: "split_windows t 1000 200 800 = (800, 1800) # split_windows t 1000 200 1600"
    using split_windows_step [OF plain, of 800 1000 200] by (simp add: len)
  have w2: "split_windows t 1000 200 1600 = (1600, 2500) # split_windows t 1000 200 2300"
    using split_windows_step [OF plain, of 1600 1000 200] by (simp add: len)
  have w3: "split_windows t 1000 200 2300 = (2300, 2500) # split_windows t 1000 200 2301"
    using split_windows_step [OF plain, of 2300 1000 200] by (simp add: len)
  show "take 4 (split_windows t 1000 200 0) =
          [(0, 1000), (800, 1800), (1600, 2500), (2300, 2500)]"
    by (simp add: w0 w1 w2 w3)
qed

lemma replicate_a_plain: "\<forall>c \<in> set (replicate n (97 :: nat)). \<not> isspace c"
proof -
  have "\<not> isspace 97" by (simp add: isspace_def)
  then show ?thesis by simp
qed

text \<open>
  C1 on the code: a page of 2500 letters \<open>a\<close>, chunk size 1000, overlap 200. The first
  three windows are \<open>[0, 1000)\<close>, \<open>[800, 1800)\<close> and \<open>[1600, 2500)\<close>, cut at the hard
  boundary; the loop then goes on from 2300 one character at a time, and the page gives
  203 chunks.
\<close>

theorem chunk_text_2500_gives_203:
  "length (chunk_text [\<lparr>page_text = Some (replicate 2500 97), page_number = Some 1\<rparr>] 1000 200) = 203 \<and>
   take 4 (split_windows (replicate 2500 97) 1000 200 0) =
     [(0, 1000), (800, 1800), (1600, 2500), (2300, 2500)]"
  using plain_2500 [OF replicate_a_plain [of 2500] length_replicate] by blast

section \<open>Properties of the summarization client\<close>

text \<open>
  C5: with \<open>max_retries = 5\<close> and five throttling errors in a row, the fifth error is
  raised, five calls have been made, and the sleeps are 4, 8, 16 and 32 seconds, with none
  after the last attempt.
\<close>

theorem summarize_five_throttles:
  assumes "\<forall>k < 5. remote (calls w + k) = Failure (msg k) \<and>
                    contains (msg k) (str ''ThrottlingException'')"
  shows "summarize_with_claude remote 5 w =
           (Raised (msg 4), w\<lparr>calls := calls w + 5, sleeps := sleeps w @ [4, 8, 16, 32]\<rparr>)"
proof -
  have u: "[0..<nat 5] = [0, Suc 0, 2, 3, 4]"
    by (simp add: upt_rec)
  have f0: "remote (calls w) = Failure (msg 0)" "contains (msg 0) (str ''ThrottlingException'')"
    using assms [rule_format, of 0] by simp_all
  have f1: "remote (Suc (calls w)) = Failure (msg (Suc 0))"
    "contains (msg (Suc 0)) (str ''ThrottlingException'')"
    using assms [rule_format, of 1] by simp_all
  have f2: "remote (Suc (Suc (calls w))) = Failure (msg 2)" "contains (msg 2) (str ''ThrottlingException'')"
    using assms [rule_format, of 2] by (simp_all add: numeral_2_eq_2)
  have f3: "remote (Suc (Suc (Suc (calls w)))) = Failure (msg 3)" "contains (msg 3) (str ''ThrottlingException'')"
    using assms [rule_format, of 3] by (simp_all add: numeral_3_eq_3)
  have f4: "remote (Suc (Suc (Suc (Suc (calls w))))) = Failure (msg 4)"
    using assms [rule_format, of 4] by (simp add: eval_nat_numeral)
  have n: "calls w + 5 = Suc (Suc (Suc (Suc (Suc (calls w)))))"
    by simp
  show ?thesis
    unfolding summarize_with_claude_def u
    by (simp add: invoke_model_def sleep_def f0 f1 f2 f3 f4 n)
qed

theorem summarize_five_throttles_witness:
  "summarize_with_claude (\<lambda>n. Failure (str ''ThrottlingException'')) 5
     \<lparr>calls = 0, sleeps = [], disk = None, write_error = None\<rparr> =
   (Raised (str ''ThrottlingException''),
    \<lparr>calls = 5, sleeps = [4, 8, 16, 32], disk = None, write_error = None\<rparr>)"
proof -
  have c: "contains (str ''ThrottlingException'') (str ''ThrottlingException'')"
    by (simp add: str_def)
  show ?thesis
    using summarize_five_throttles
      [of "\<lambda>n. Failure (str ''ThrottlingException'')"
          "\<lparr>calls = 0, sleeps = [], disk = None, write_error = None\<rparr>"
          "\<lambda>k. str ''ThrottlingException''"] c
    by simp
qed


section \<open>Properties of the orchestrator\<close>




lemma basename_reports_r: "basename (str ''reports/r.pdf'') = str ''r.pdf''"
  by (simp add: basename_def rfind_def str_def py_slice_def slice_index_def eval_nat_numeral)

lemma replace_r: "replace (str ''r.pdf'') (str ''.pdf'') (str ''.json'') = str ''r.json''"
proof -
  have a: "replace (str ''r.pdf'') (str ''.pdf'') (str ''.json'') =
           of_char CHR ''r'' # replace (str ''.pdf'') (str ''.pdf'') (str ''.json'')"
    by (subst replace.simps) (simp add: str_def)
  have b: "replace (str ''.pdf'') (str ''.pdf'') (str ''.json'') =
           str ''.json'' @ replace [] (str ''.pdf'') (str ''.json'')"
    by (subst replace.simps) (simp add: str_def)
  have c: "replace [] (str ''.pdf'') (str ''.json'') = []"
    by (subst replace.simps) (simp add: str_def)
  show ?thesis
    unfolding a b c by (simp add: str_def)
qed


lemma output_reports_r:
  "path_join (str ''extracted_data'')
     (replace (basename (str ''reports/r.pdf'')) (str ''.pdf'') (str ''.json'')) =
   str ''extracted_data/r.json''"
  unfolding basename_reports_r replace_r by (simp add: path_join_def str_def)












text \<open>
  C2 on the code: two one-letter pages in a fresh output directory. When the first
  summarization returns and the second raises, the file ends with the second chunk
  without a summary while the record in memory holds its error summary, so file and
  record differ. When both summarizations raise, the file does not exist at the end: it is
  written neither before the first summarization nor after a failed chunk.
\<close>

theorem checkpoint_stale_after_failure:
  "snd (process_stock_report
      (\<lambda>n. if n = 0 then Response [111, 107] else Failure [120])
      (Returned [Returned [97], Returned [98]]) (str ''r.pdf'') (str ''extracted_data'')
      \<lparr>calls = 0, sleeps = [], disk = None, write_error = None\<rparr>) =
     \<lparr>result_data = \<lparr>source = str ''r.pdf'',
        chunks = [(mk_chunk [97] 1)\<lparr>summary := Some (SStr [111, 107])\<rparr>,
                  (mk_chunk [98] 2)\<lparr>summary := Some (SStr (str ''Error: '' @ [120]))\<rparr>]\<rparr>,
      successful_chunks = 1,
      outside = \<lparr>calls = 2, sleeps = [5],
        disk = Some (Saved \<lparr>source = str ''r.pdf'',
          chunks = [(mk_chunk [97] 1)\<lparr>summary := Some (SStr [111, 107])\<rparr>,
                    mk_chunk [98] 2]\<rparr>),
        write_error = None\<rparr>\<rparr> \<and>
   disk (outside (snd (process_stock_report
      (\<lambda>n. if n = 0 then Response [111, 107] else Failure [120])
      (Returned [Returned [97], Returned [98]]) (str ''r.pdf'') (str ''extracted_data'')
      \<lparr>calls = 0, sleeps = [], disk = None, write_error = None\<rparr>))) \<noteq>
     Some (Saved (result_data (snd (process_stock_report
      (\<lambda>n. if n = 0 then Response [111, 107] else Failure [120])
      (Returned [Returned [97], Returned [98]]) (str ''r.pdf'') (str ''extracted_data'')
      \<lparr>calls = 0, sleeps = [], disk = None, write_error = None\<rparr>)))) \<and>
   snd (process_stock_report (\<lambda>n. Failure [120])
      (Returned [Returned [97], Returned [98]]) (str ''r.pdf'') (str ''extracted_data'')
      \<lparr>calls = 0, sleeps = [], disk = None, write_error = None\<rparr>) =
     \<lparr>result_data = \<lparr>source = str ''r.pdf'',
        chunks = [(mk_chunk [97] 1)\<lparr>summary := Some (SStr (str ''Error: '' @ [120]))\<rparr>,
                  (mk_chunk [98] 2)\<lparr>summary := Some (SStr (str ''Error: '' @ [120]))\<rparr>]\<rparr>,
      successful_chunks = 0,
      outside = \<lparr>calls = 2, sleeps = [5], disk = None, write_error = None\<rparr>\<rparr>"
proof -
  let ?R = "\<lambda>n::nat. if n = 0 then Response [111, 107] else Failure [120]"
  let ?F = "\<lambda>n::nat. Failure [120]"
  let ?D = "Returned [Returned [97], Returned [98]]"
  let ?w = "\<lparr>calls = 0, sleeps = [], disk = None, write_error = None\<rparr>"
  have ch: "chunk_text (extract_pdf ?D) 1000 200 = [mk_chunk [97] 1, mk_chunk [98] 2]"
    by (simp add: extract_pdf_def chunk_text_def page_chunks_def strip_def isspace_def)
  have s0: "summarize_with_claude ?R 5 w = (Returned (SStr [111, 107]), w\<lparr>calls := 1\<rparr>)"
    if "calls w = 0" for w
    using that by (simp add: summarize_with_claude_def upt_rec invoke_model_def)
  have nt: "\<not> contains [120] (str ''ThrottlingException'')"
    by (simp add: str_def)
  have s1: "summarize_with_claude ?R 5 w = (Raised [120], w\<lparr>calls := 2\<rparr>)"
    if "calls w = 1" for w
    using that nt by (simp add: summarize_with_claude_def upt_rec invoke_model_def)
  have sf: "summarize_with_claude ?F 5 w = (Raised [120], w\<lparr>calls := Suc (calls w)\<rparr>)" for w
    using nt by (simp add: summarize_with_claude_def upt_rec invoke_model_def)
  have run: "snd (process_stock_report ?R ?D (str ''r.pdf'') (str ''extracted_data'') ?w) =
    \<lparr>result_data = \<lparr>source = str ''r.pdf'',
       chunks = [(mk_chunk [97] 1)\<lparr>summary := Some (SStr [111, 107])\<rparr>,
                 (mk_chunk [98] 2)\<lparr>summary := Some (SStr (str ''Error: '' @ [120]))\<rparr>]\<rparr>,
     successful_chunks = 1,
     outside = \<lparr>calls = 2, sleeps = [5],
       disk = Some (Saved \<lparr>source = str ''r.pdf'',
         chunks = [(mk_chunk [97] 1)\<lparr>summary := Some (SStr [111, 107])\<rparr>, mk_chunk [98] 2]\<rparr>),
       write_error = None\<rparr>\<rparr>"
    by (simp add: process_stock_report_def ch upt_rec process_chunk_def s0 s1
          save_partial_results_def set_summary_def sleep_def Let_def)
  have fail: "snd (process_stock_report ?F ?D (str ''r.pdf'') (str ''extracted_data'') ?w) =
    \<lparr>result_data = \<lparr>source = str ''r.pdf'',
       chunks = [(mk_chunk [97] 1)\<lparr>summary := Some (SStr (str ''Error: '' @ [120]))\<rparr>,
                 (mk_chunk [98] 2)\<lparr>summary := Some (SStr (str ''Error: '' @ [120]))\<rparr>]\<rparr>,
     successful_chunks = 0,
     outside = \<lparr>calls = 2, sleeps = [5], disk = None, write_error = None\<rparr>\<rparr>"
    by (simp add: process_stock_report_def ch upt_rec process_chunk_def sf
          set_summary_def sleep_def Let_def)
  have ne: "disk (outside (snd (process_stock_report ?R ?D (str ''r.pdf'')
                (str ''extracted_data'') ?w))) \<noteq>
            Some (Saved (result_data (snd (process_stock_report ?R ?D (str ''r.pdf'')
                (str ''extracted_data'') ?w))))"
    unfolding run by (simp add: mk_chunk_def)
  from run ne fail show ?thesis by blast
qed

text \<open>
  C3 on the code: a document of one page \<open>abc\<close> whose only summarization fails with an
  error that is not a throttling error, run where no output file exists yet. The failure
  is recorded in the chunk and the counter stays at 0, but the checkpoint was never
  written, so the final verification cannot open the file and the run raises.
\<close>

theorem all_chunks_fail_run_raises:
  "process_stock_report (\<lambda>n. Failure (str ''ValidationException''))
     (Returned [Returned (str ''abc'')]) (str ''reports/r.pdf'') (str ''extracted_data'')
     \<lparr>calls = 0, sleeps = [], disk = None, write_error = None\<rparr> =
   (Inl (FileNotFoundError (str ''extracted_data/r.json'')),
    \<lparr>result_data =
       \<lparr>source = str ''reports/r.pdf'',
        chunks = [(mk_chunk (str ''abc'') 1)
                    \<lparr>summary := Some (SStr (str ''Error: ValidationException''))\<rparr>]\<rparr>,
     successful_chunks = 0,
     outside = \<lparr>calls = 1, sleeps = [], disk = None, write_error = None\<rparr>\<rparr>)"
proof -
  let ?R = "\<lambda>n::nat. Failure (str ''ValidationException'')"
  have ch: "chunk_text (extract_pdf (Returned [Returned (str ''abc'')])) 1000 200 =
              [mk_chunk (str ''abc'') 1]"
    by (simp add: extract_pdf_def chunk_text_def page_chunks_def strip_def isspace_def str_def)
  have nt: "\<not> contains (str ''ValidationException'') (str ''ThrottlingException'')"
    by (simp add: str_def)
  have s: "summarize_with_claude ?R 5 w = (Raised (str ''ValidationException''), w\<lparr>calls := Suc (calls w)\<rparr>)"
    for w
    using nt by (simp add: summarize_with_claude_def upt_rec invoke_model_def)
  have e: "str ''Error: '' @ str ''ValidationException'' = str ''Error: ValidationException''"
    by (simp add: str_def)
  show ?thesis
    by (simp add: process_stock_report_def ch upt_rec process_chunk_def s e
          set_summary_def Let_def output_reports_r read_back_def)
qed





section \<open>Properties of the administrative utility\<close>

lemma drop_table_absent:
  "name \<notin> set (table_names db) \<Longrightarrow> drop_table name db = db"
  by (induction db) (auto simp: drop_table_def table_names_def)

lemma lower_clear: "lower (str ''clear'') = str ''clear''"
  by (simp add: lower_def str_def)

lemma clear_not_stats: "str ''clear'' \<noteq> str ''stats''"
  by (simp add: str_def)

text \<open>
  C9 as the code has it: the script reads only \<open>sys.argv[1]\<close>, so what follows the
  subcommand changes nothing; \<open>clear\<close> always asks, and drops the table exactly when the
  answer, lowered, is \<open>y\<close>. Only the parameter \<open>confirm=False\<close> of the function skips
  the question, and the script never passes it.
\<close>

theorem clear_always_asks:
  "main (prog # action # rest) answer db = main [prog, action] answer db \<and>
   main (prog # str ''clear'' # rest) answer db =
     (0, if lower answer = str ''y'' then clear_database False answer db
         else (db, [Line (str ''Operation cancelled'')])) \<and>
   fst (clear_database False answer db) = drop_table (str ''stock_chunks'') db"
proof -
  have a: "main (prog # action # rest) answer db = main [prog, action] answer db"
    by (simp add: main_def)
  have b: "main (prog # str ''clear'' # rest) answer db =
     (0, if lower answer = str ''y'' then clear_database False answer db
         else (db, [Line (str ''Operation cancelled'')]))"
    by (simp add: main_def lower_clear clear_not_stats clear_database_def)
  have c: "fst (clear_database False answer db) = drop_table (str ''stock_chunks'') db"
    by (simp add: clear_database_def drop_table_absent)
  from a b c show ?thesis by blast
qed

text \<open>
  The claim C9 fails: with \<open>--yes\<close>, \<open>-y\<close> or \<open>--force\<close> after \<open>clear\<close> and the
  answer \<open>n\<close>, the table is still there.
\<close>

theorem clear_flag_does_not_bypass:
  "main [str ''db_utils.py'', str ''clear'', str ''--yes''] (str ''n'')
     [(str ''stock_chunks'', [str ''a.pdf''])] =
     (0, [(str ''stock_chunks'', [str ''a.pdf''])], [Line (str ''Operation cancelled'')]) \<and>
   main [str ''db_utils.py'', str ''clear'', str ''-y''] (str ''n'')
     [(str ''stock_chunks'', [str ''a.pdf''])] =
     (0, [(str ''stock_chunks'', [str ''a.pdf''])], [Line (str ''Operation cancelled'')]) \<and>
   main [str ''db_utils.py'', str ''clear'', str ''--force''] (str ''n'')
     [(str ''stock_chunks'', [str ''a.pdf''])] =
     (0, [(str ''stock_chunks'', [str ''a.pdf''])], [Line (str ''Operation cancelled'')])"
proof -
  have n: "lower (str ''n'') \<noteq> str ''y''"
    by (simp add: lower_def str_def)
  show ?thesis
    by (simp add: main_def lower_clear clear_not_stats clear_database_def n)
qed

end
